theory Spec2Isabelle
  imports Complex_Main "HOL-Library.Word"
begin

section \<open>Data model\<close>

text \<open>
  A JavaScript string is a sequence of UTF-16 code units. The model's string literals are
  ASCII; \<open>str\<close> turns an Isabelle literal into code units.
\<close>

type_synonym jsstring = "16 word list"

definition str :: "string \<Rightarrow> jsstring" where
  "str cs = map of_char cs"

text \<open>
  A JavaScript number is an IEEE 754 double. \<open>Finite q\<close> is the double of value \<open>q\<close>; the
  two zeros are one value here (the client compares with \<^verbatim>\<open>>\<close>, subtracts, doubles and
  prints, none of which tells them apart). The type does not exclude rationals that are no
  doubles; the operations below are meant for arguments that are.
\<close>

datatype number = Finite rat | PosInfinity | NegInfinity | NaN

text \<open>
  Values that the source throws or rejects with:
  \<^item> \<open>ProgressEvent\<close>: the event \<^verbatim>\<open>reader.onerror = reject\<close> rejects with;
  \<^item> \<open>ApiError\<close>: whatever \<^verbatim>\<open>ai.models.generateContent\<close> rejects with;
  \<^item> \<open>SyntaxError\<close>: what \<^verbatim>\<open>JSON.parse\<close> throws;
  \<^item> \<open>Error\<close>: \<^verbatim>\<open>new Error(message)\<close>.
\<close>

datatype error =
    ProgressEvent string
  | ApiError string
  | SyntaxError string
  | Error string

text \<open>
  The binary audio object: its \<^verbatim>\<open>type\<close> property (a MIME type, empty when unspecified) and
  its bytes.
\<close>

record blob =
  blob_type :: jsstring
  blob_bytes :: "8 word list"

text \<open>
  The part of the outbound request that depends on the input. The system instruction, the
  response schema, the temperature and the safety settings are constants of the source.
\<close>

record request =
  model :: string
  mimeType :: jsstring
  data :: "jsstring option"
  part_text :: string
  responseMimeType :: string

text \<open>\<^verbatim>\<open>response.text\<close> is a string or \<^verbatim>\<open>undefined\<close>.\<close>

record response =
  response_text :: "jsstring option"

text \<open>
  Every call the source makes to something outside itself is recorded, in program order.
  The effects of the client: reading the blob, the request to the model, \<^verbatim>\<open>JSON.parse\<close>
  and \<^verbatim>\<open>console.error\<close>.
\<close>

datatype effect =
    ReadAsDataURL blob
  | GenerateContent request
  | JSONParse jsstring
  | ConsoleError error

text \<open>
  The events of a run of the retry wrapper: \<open>OperationCall\<close> marks \<^verbatim>\<open>await operation()\<close>,
  \<open>Effect\<close> carries what the operation itself did, \<open>ConsoleWarn n\<close> is the warning with
  \<^verbatim>\<open>Attempts left: n\<close>, \<open>SetTimeout d\<close> is the wait started with \<^verbatim>\<open>setTimeout(resolve, d)\<close>.
\<close>

datatype 'ev event =
    Effect 'ev
  | OperationCall
  | ConsoleWarn number
  | SetTimeout number

section \<open>Arithmetic on JavaScript numbers\<close>

text \<open>The number of binary digits of a positive integer.\<close>

function bitlength :: "int \<Rightarrow> int" where
  "bitlength n = (if n \<le> 0 then 0 else 1 + bitlength (n div 2))"
  by pat_completeness auto
termination
  by (relation "measure nat") auto

declare bitlength.simps [simp del]

text \<open>
  For a positive rational \<open>a\<close>, the exponent \<open>e\<close> with \<open>2 powi e \<le> a < 2 powi (e + 1)\<close>: the
  difference of the bit lengths of numerator and denominator, or one less.
\<close>

definition ilog2 :: "rat \<Rightarrow> int" where
  "ilog2 a =
     (let (n, d) = quotient_of a;
          k = bitlength n - bitlength d
      in if 2 powi k \<le> a then k else k - 1)"

text \<open>
  The double that an exact result \<open>q\<close> is rounded to (round to nearest, ties to even): the
  spacing \<open>ulp\<close> of the doubles around \<open>q\<close> is \<open>2 powi (e - 52)\<close>, with the exponent \<open>e\<close> of
  \<open>q\<close> not below -1022; \<open>q\<close> is a multiple \<open>m\<close> of that spacing, rounded to the nearest
  integer, to the even one when two are equally near; a result of \<open>2 powi 1024\<close> or more is
  an infinity.
\<close>

definition round_double :: "rat \<Rightarrow> number" where
  "round_double q =
     (if q = 0 then Finite 0
      else
        let a = \<bar>q\<bar>;
            e = max (ilog2 a) (- 1022);
            ulp = 2 powi (e - 52);
            m = a / ulp;
            f = \<lfloor>m\<rfloor>;
            n = (if m - of_int f < 1 / 2 then f
                 else if 1 / 2 < m - of_int f then f + 1
                 else if even f then f else f + 1);
            r = of_int n * ulp
        in if 2 powi 1024 \<le> r then (if 0 < q then PosInfinity else NegInfinity)
           else Finite (if 0 < q then r else - r))"

text \<open>\<^verbatim>\<open>x > 0\<close>, \<^verbatim>\<open>x - 1\<close> and \<^verbatim>\<open>x * 2\<close>.\<close>

fun js_greater_zero :: "number \<Rightarrow> bool" where
  "js_greater_zero (Finite q) = (0 < q)"
| "js_greater_zero PosInfinity = True"
| "js_greater_zero NegInfinity = False"
| "js_greater_zero NaN = False"

fun js_minus_one :: "number \<Rightarrow> number" where
  "js_minus_one (Finite q) = round_double (q - 1)"
| "js_minus_one PosInfinity = PosInfinity"
| "js_minus_one NegInfinity = NegInfinity"
| "js_minus_one NaN = NaN"

fun js_times_two :: "number \<Rightarrow> number" where
  "js_times_two (Finite q) = round_double (q * 2)"
| "js_times_two PosInfinity = PosInfinity"
| "js_times_two NegInfinity = NegInfinity"
| "js_times_two NaN = NaN"

section \<open>The retry wrapper\<close>

text \<open>
  \<^verbatim>\<open>async function retryOperation<T>(operation, retries = 2, delay = 1000)\<close>.
  An operation runs in a state of the outside world \<open>'s\<close> (the service it talks to) and
  gives a rejection (\<open>Inl\<close>) or a value (\<open>Inr\<close>), the next state and the effects it caused.
  The wrapper calls itself for as long as the operation fails and \<^verbatim>\<open>retries > 0\<close>; where that
  never ends, the promise never settles and the result is \<open>None\<close>.
\<close>

type_synonym ('s, 'e, 'a, 'ev) operation = "'s \<Rightarrow> ('e + 'a) \<times> 's \<times> 'ev list"

type_synonym ('s, 'e, 'a, 'ev) outcome = "('e + 'a) \<times> 's \<times> 'ev event list"

partial_function (option) retryOperation ::
  "('s, 'e, 'a, 'ev) operation \<Rightarrow> number \<Rightarrow> number \<Rightarrow> 's \<Rightarrow>
   ('s, 'e, 'a, 'ev) outcome option" where
  "retryOperation operation retries delay s =
     (case operation s of
        (Inr v, s', t) \<Rightarrow> Some (Inr v, s', OperationCall # map Effect t)
      | (Inl error, s', t) \<Rightarrow>
          if js_greater_zero retries then
            Option.bind
              (retryOperation operation (js_minus_one retries) (js_times_two delay) s')
              (\<lambda>(r, s'', t').
                 Some (r, s'',
                   OperationCall # map Effect t @ [ConsoleWarn retries, SetTimeout delay] @ t'))
          else Some (Inl error, s', OperationCall # map Effect t))"

text \<open>The call \<^verbatim>\<open>retryOperation(operation)\<close>, with both defaults.\<close>

definition retryOperation_default ::
  "('s, 'e, 'a, 'ev) operation \<Rightarrow> 's \<Rightarrow> ('s, 'e, 'a, 'ev) outcome option" where
  "retryOperation_default operation s = retryOperation operation (Finite 2) (Finite 1000) s"

text \<open>How many times a trace invokes the operation, and the waits it makes, in order.\<close>

definition invocations :: "'ev event list \<Rightarrow> nat" where
  "invocations t = length (filter (\<lambda>ev. ev = OperationCall) t)"

fun delays :: "'ev event list \<Rightarrow> number list" where
  "delays [] = []"
| "delays (SetTimeout d # t) = d # delays t"
| "delays (ev # t) = delays t"

section \<open>String operations of the client\<close>

text \<open>
  \<^verbatim>\<open>String.prototype.trim\<close> removes the code units of WhiteSpace and LineTerminator from
  both ends.
\<close>

definition isWhiteSpace :: "16 word \<Rightarrow> bool" where
  "isWhiteSpace c \<longleftrightarrow>
     c \<in> set [0x9, 0xA, 0xB, 0xC, 0xD, 0x20, 0xA0, 0x1680, 0x2028, 0x2029, 0x202F, 0x205F,
              0x3000, 0xFEFF]
     \<or> (0x2000 \<le> c \<and> c \<le> 0x200A)"

definition trim :: "jsstring \<Rightarrow> jsstring" where
  "trim s = rev (dropWhile isWhiteSpace (rev (dropWhile isWhiteSpace s)))"

definition startsWith :: "jsstring \<Rightarrow> jsstring \<Rightarrow> bool" where
  "startsWith s p \<longleftrightarrow> take (length p) s = p"

definition endsWith :: "jsstring \<Rightarrow> jsstring \<Rightarrow> bool" where
  "endsWith s p \<longleftrightarrow> length p \<le> length s \<and> drop (length s - length p) s = p"

text \<open>
  \<^verbatim>\<open>s.replace(/^p/, '')\<close> and \<^verbatim>\<open>s.replace(/p$/, '')\<close> for a literal \<open>p\<close>: without the
  multiline flag the anchors match at the two ends of the input only.
\<close>

definition replace_at_start :: "jsstring \<Rightarrow> jsstring \<Rightarrow> jsstring" where
  "replace_at_start p s = (if startsWith s p then drop (length p) s else s)"

definition replace_at_end :: "jsstring \<Rightarrow> jsstring \<Rightarrow> jsstring" where
  "replace_at_end p s = (if endsWith s p then take (length s - length p) s else s)"

text \<open>\<^verbatim>\<open>s.split(sep)\<close> for a separator of one code unit; the empty string gives one piece.\<close>

fun js_split :: "'a \<Rightarrow> 'a list \<Rightarrow> 'a list list" where
  "js_split sep [] = [[]]"
| "js_split sep (c # cs) =
     (if c = sep then [] # js_split sep cs
      else (case js_split sep cs of
              [] \<Rightarrow> [[c]]
            | piece # pieces \<Rightarrow> (c # piece) # pieces))"

text \<open>\<^verbatim>\<open>xs[i]\<close> on an array: \<^verbatim>\<open>undefined\<close> (\<open>None\<close>) out of range.\<close>

definition index :: "'a list \<Rightarrow> nat \<Rightarrow> 'a option" where
  "index xs i = (if i < length xs then Some (xs ! i) else None)"

text \<open>A value of type string or \<^verbatim>\<open>undefined\<close> is truthy when it is a non-empty string.\<close>

fun truthy :: "jsstring option \<Rightarrow> bool" where
  "truthy None = False"
| "truthy (Some text) = (text \<noteq> [])"

section \<open>The audio encoder\<close>

text \<open>
  \<^verbatim>\<open>blobToBase64\<close>. The \<^verbatim>\<open>FileReader\<close> is a parameter: it fails with an error event or
  ends with the data URL in \<^verbatim>\<open>reader.result\<close>. On failure \<^verbatim>\<open>reader.onerror = reject\<close>
  rejects the promise with the event (the \<^verbatim>\<open>loadend\<close> handler that runs afterwards cannot
  change a settled promise). On success the promise resolves with
  \<^verbatim>\<open>base64data.split(',')[1]\<close>, which is \<^verbatim>\<open>undefined\<close> (\<open>None\<close>) when the result holds no
  comma.
\<close>

definition blobToBase64 ::
  "(blob \<Rightarrow> error + jsstring) \<Rightarrow> blob \<Rightarrow> (error + jsstring option) \<times> effect list" where
  "blobToBase64 readAsDataURL blob =
     (case readAsDataURL blob of
        Inl ev \<Rightarrow> (Inl ev, [ReadAsDataURL blob])
      | Inr base64data \<Rightarrow>
          (Inr (index (js_split (of_char CHR '','') base64data) 1), [ReadAsDataURL blob]))"

section \<open>The transcription client\<close>

text \<open>Lines 130 to 136: the text that is handed to \<^verbatim>\<open>JSON.parse\<close>.\<close>

definition cleanText :: "jsstring \<Rightarrow> jsstring" where
  "cleanText text =
     (let trimmed = trim text in
      if startsWith trimmed (str ''```json'') then
        replace_at_end (str ''```'') (replace_at_start (str ''```json'') trimmed)
      else if startsWith trimmed (str ''```'') then
        replace_at_end (str ''```'') (replace_at_start (str ''```'') trimmed)
      else trimmed)"

text \<open>The \<^verbatim>\<open>contents\<close> of the request, lines 98 to 126.\<close>

definition buildRequest :: "blob \<Rightarrow> jsstring option \<Rightarrow> request" where
  "buildRequest audioBlob base64Audio =
     \<lparr>model = ''gemini-2.5-flash'',
      mimeType = (if blob_type audioBlob \<noteq> [] then blob_type audioBlob else str ''audio/webm''),
      data = base64Audio,
      part_text = ''Please analyze this audio for expenses.'',
      responseMimeType = ''application/json''\<rparr>"

text \<open>
  The body of the \<^verbatim>\<open>try\<close> block of one attempt. The model service and \<^verbatim>\<open>JSON.parse\<close> are
  parameters; the service has a state \<open>'s\<close>, so that it may answer differently each time.
\<close>

definition attempt_try ::
  "(request \<Rightarrow> 's \<Rightarrow> (error + response) \<times> 's) \<Rightarrow> (jsstring \<Rightarrow> error + 'j) \<Rightarrow> request \<Rightarrow>
   's \<Rightarrow> (error + 'j) \<times> 's \<times> effect list" where
  "attempt_try generateContent JSON_parse rq s =
     (case generateContent rq s of
        (Inl err, s') \<Rightarrow> (Inl err, s', [GenerateContent rq])
      | (Inr response, s') \<Rightarrow>
          if truthy (response_text response) then
            (let cleaned = cleanText (the (response_text response)) in
             (JSON_parse cleaned, s', [GenerateContent rq, JSONParse cleaned]))
          else (Inl (Error ''Empty response from Gemini''), s', [GenerateContent rq]))"

text \<open>One attempt: the \<^verbatim>\<open>try\<close> block and its \<^verbatim>\<open>catch\<close>, which logs and throws again.\<close>

definition attempt ::
  "(request \<Rightarrow> 's \<Rightarrow> (error + response) \<times> 's) \<Rightarrow> (jsstring \<Rightarrow> error + 'j) \<Rightarrow> request \<Rightarrow>
   's \<Rightarrow> (error + 'j) \<times> 's \<times> effect list" where
  "attempt generateContent JSON_parse rq s =
     (case attempt_try generateContent JSON_parse rq s of
        (Inl error, s', t) \<Rightarrow> (Inl error, s', t @ [ConsoleError error])
      | (Inr v, s', t) \<Rightarrow> (Inr v, s', t))"

text \<open>
  \<^verbatim>\<open>processAudioWithGemini\<close>, the \<^verbatim>\<open>processAudio\<close> of the specification. Its promise
  settles when the promise of the retry wrapper does.
\<close>

definition processAudioWithGemini ::
  "(blob \<Rightarrow> error + jsstring) \<Rightarrow> (request \<Rightarrow> 's \<Rightarrow> (error + response) \<times> 's) \<Rightarrow>
   (jsstring \<Rightarrow> error + 'j) \<Rightarrow> blob \<Rightarrow> 's \<Rightarrow>
   ((error + 'j) \<times> 's \<times> effect event list) option" where
  "processAudioWithGemini readAsDataURL generateContent JSON_parse audioBlob s =
     (case blobToBase64 readAsDataURL audioBlob of
        (Inl ev, t0) \<Rightarrow> Some (Inl ev, s, map Effect t0)
      | (Inr base64Audio, t0) \<Rightarrow>
          (case retryOperation_default
                  (attempt generateContent JSON_parse (buildRequest audioBlob base64Audio)) s of
             None \<Rightarrow> None
           | Some (r, s', t) \<Rightarrow> Some (r, s', map Effect t0 @ t)))"

text \<open>
  The failures of one attempt: the service rejects, the response has no text, or
  \<^verbatim>\<open>JSON.parse\<close> throws on the cleaned text.
\<close>

definition retryable_failure ::
  "(request \<Rightarrow> 's \<Rightarrow> (error + response) \<times> 's) \<Rightarrow> (jsstring \<Rightarrow> error + 'j) \<Rightarrow> request \<Rightarrow>
   's \<Rightarrow> bool" where
  "retryable_failure generateContent JSON_parse rq s \<longleftrightarrow>
     (case generateContent rq s of
        (Inl err, s') \<Rightarrow> True
      | (Inr response, s') \<Rightarrow>
          \<not> truthy (response_text response) \<or>
          isl (JSON_parse (cleanText (the (response_text response)))))"

section \<open>What the environment provides\<close>

text \<open>
  The data URL that \<^verbatim>\<open>FileReader.readAsDataURL\<close> produces for a media type and bytes
  (RFC 2397): \<^verbatim>\<open>data:<mediatype>;base64,<payload>\<close>, the payload in base64 (RFC 4648) with
  padding.
\<close>

definition base64_alphabet :: string where
  "base64_alphabet = ''ABCDEFGHIJKLMNOPQRSTUVWXYZabcdefghijklmnopqrstuvwxyz0123456789+/''"

definition base64_digit :: "nat \<Rightarrow> char" where
  "base64_digit n = base64_alphabet ! (n mod 64)"

fun base64 :: "8 word list \<Rightarrow> string" where
  "base64 [] = []"
| "base64 [a] =
     [base64_digit (unat a div 4), base64_digit (unat a mod 4 * 16), CHR ''='', CHR ''='']"
| "base64 [a, b] =
     [base64_digit (unat a div 4), base64_digit (unat a mod 4 * 16 + unat b div 16),
      base64_digit (unat b mod 16 * 4), CHR ''='']"
| "base64 (a # b # c # bytes) =
     [base64_digit (unat a div 4), base64_digit (unat a mod 4 * 16 + unat b div 16),
      base64_digit (unat b mod 16 * 4 + unat c div 64), base64_digit (unat c mod 64)]
     @ base64 bytes"

definition is_base64 :: "jsstring \<Rightarrow> bool" where
  "is_base64 s \<longleftrightarrow> list_all (\<lambda>c. c \<in> set (str base64_alphabet) \<or> c = of_char CHR ''='') s"

definition dataURL :: "jsstring \<Rightarrow> 8 word list \<Rightarrow> jsstring" where
  "dataURL mediatype bytes = str ''data:'' @ mediatype @ str '';base64,'' @ str (base64 bytes)"

text \<open>A reader that succeeds on every blob, with the blob's type as the media type.\<close>

definition fileReader :: "blob \<Rightarrow> error + jsstring" where
  "fileReader b = Inr (dataURL (blob_type b) (blob_bytes b))"

text \<open>
  \<^verbatim>\<open>JSON.parse\<close> skips the JSON whitespace (tab, line feed, carriage return, space) around
  the value: such padding changes neither whether a text is accepted nor the value it
  gives. Nothing is said about the errors of rejected texts.
\<close>

definition isJSONWhiteSpace :: "16 word \<Rightarrow> bool" where
  "isJSONWhiteSpace c \<longleftrightarrow> c \<in> set [0x9, 0xA, 0xD, 0x20]"


definition strip :: "jsstring \<Rightarrow> jsstring" where
  "strip s = rev (dropWhile isJSONWhiteSpace (rev (dropWhile isJSONWhiteSpace s)))"

text \<open>A JSON text whose value is an object: braces at both ends, whitespace around them.\<close>

definition object_text :: "jsstring \<Rightarrow> bool" where
  "object_text t \<longleftrightarrow>
     strip t \<noteq> [] \<and> hd (strip t) = of_char CHR ''{'' \<and> last (strip t) = of_char CHR ''}''"


section \<open>Test doubles\<close>

text \<open>
  Operations whose state counts their invocations: one that fails every time with the
  number of the invocation as its error, one that fails twice and then succeeds.
\<close>

definition always_fails :: "nat \<Rightarrow> (nat + unit) \<times> nat \<times> unit list" where
  "always_fails = (\<lambda>k. (Inl k, Suc k, []))"

definition fails_twice :: "nat \<Rightarrow> (nat + string) \<times> nat \<times> unit list" where
  "fails_twice = (\<lambda>k. (if k < 2 then Inl k else Inr ''ok'', Suc k, []))"

text \<open>
  A reader that always fails; services that fail, answer without text, or answer with the
  empty string, counting the requests in their state; a stand-in for \<^verbatim>\<open>JSON.parse\<close> that
  accepts object texts and returns them without the surrounding whitespace; a blob of
  unspecified type.
\<close>

definition broken_reader :: "blob \<Rightarrow> error + jsstring" where
  "broken_reader = (\<lambda>b. Inl (ProgressEvent ''error''))"

definition failing_service :: "request \<Rightarrow> nat \<Rightarrow> (error + response) \<times> nat" where
  "failing_service = (\<lambda>rq k. (Inl (ApiError ''unavailable''), Suc k))"

definition silent_service :: "request \<Rightarrow> nat \<Rightarrow> (error + response) \<times> nat" where
  "silent_service = (\<lambda>rq k. (Inr \<lparr>response_text = None\<rparr>, Suc k))"

definition blank_service :: "request \<Rightarrow> nat \<Rightarrow> (error + response) \<times> nat" where
  "blank_service = (\<lambda>rq k. (Inr \<lparr>response_text = Some []\<rparr>, Suc k))"

definition parse_stub :: "jsstring \<Rightarrow> error + jsstring" where
  "parse_stub = (\<lambda>u. if object_text u then Inr (strip u) else Inl (SyntaxError ''Unexpected token''))"

definition voice_note :: blob where
  "voice_note = \<lparr>blob_type = [], blob_bytes = [0, 0, 0]\<rparr>"

text \<open>A blob whose type lists two codecs.\<close>

definition codec_list_blob :: blob where
  "codec_list_blob = \<lparr>blob_type = str ''audio/webm;codecs=opus,vorbis'', blob_bytes = [0, 0, 0]\<rparr>"

section \<open>Properties of the arithmetic\<close>

lemma bitlength_nonneg: "0 \<le> bitlength n"
  by (induction n rule: bitlength.induct) (subst bitlength.simps, simp)

lemma bitlength_positive: "0 < n \<Longrightarrow> 0 < bitlength n"
  using bitlength_nonneg [of "n div 2"] by (subst bitlength.simps) simp

lemma bitlength_one: "bitlength 1 = 1"
  by (simp add: bitlength.simps)

lemma bitlength_bounds:
  "0 < n \<Longrightarrow> 2 ^ nat (bitlength n - 1) \<le> n \<and> n < 2 ^ nat (bitlength n)"
proof (induction n rule: bitlength.induct)
  case (1 n)
  have eq: "bitlength n = 1 + bitlength (n div 2)"
    using "1.prems" by (subst bitlength.simps) simp
  show ?case
  proof (cases "n div 2 \<le> 0")
    case True
    with "1.prems" have "n = 1" by presburger
    then show ?thesis by (simp add: bitlength.simps)
  next
    case False
    with "1.IH" "1.prems" have ih: "2 ^ nat (bitlength (n div 2) - 1) \<le> n div 2"
      "n div 2 < 2 ^ nat (bitlength (n div 2))" by simp_all
    from False have pos: "0 < bitlength (n div 2)"
      by (simp add: bitlength_positive)
    define j where "j = nat (bitlength (n div 2) - 1)"
    with pos have j: "nat (bitlength (n div 2)) = Suc j" "nat (bitlength n - 1) = Suc j"
      "nat (bitlength n) = Suc (Suc j)"
      by (simp_all add: eq)
    from ih j have "2 ^ j \<le> n div 2" "n div 2 < 2 * 2 ^ j" by (simp_all add: j_def)
    then have "2 * 2 ^ j \<le> n" "n < 2 * (2 * 2 ^ j)" by linarith+
    with j show ?thesis by simp
  qed
qed

lemma ilog2_of_int:
  assumes "0 < k"
  shows "ilog2 (of_int k) = bitlength k - 1"
proof -
  from assms have "0 \<le> bitlength k - 1"
    using bitlength_positive [of k] by simp
  moreover from assms have "(2::int) ^ nat (bitlength k - 1) \<le> k"
    by (simp add: bitlength_bounds)
  then have "(of_int (2 ^ nat (bitlength k - 1)) :: rat) \<le> of_int k"
    by (simp only: of_int_le_iff)
  ultimately have "(2::rat) powi (bitlength k - 1) \<le> of_int k"
    by (simp add: power_int_def)
  then show ?thesis
    by (simp add: ilog2_def bitlength_one)
qed

text \<open>The integers from 0 to \<open>2 ^ 53 - 1\<close> are doubles: rounding leaves them as they are.\<close>

lemma round_double_of_int:
  assumes "0 \<le> k" and "k < 2 ^ 53"
  shows "round_double (of_int k) = Finite (of_int k)"
proof (cases "k = 0")
  case True
  then show ?thesis by (simp add: round_double_def)
next
  case False
  with assms have pos: "0 < k" by simp
  define e where "e = bitlength k - 1"
  define c where "c = nat (52 - e)"
  have e0: "0 \<le> e"
    using bitlength_positive [OF pos] by (simp add: e_def)
  have "(2::int) ^ nat e \<le> k"
    using bitlength_bounds [OF pos] by (simp add: e_def)
  with assms(2) have lt: "(2::int) ^ nat e < 2 ^ 53" by linarith
  have "nat e < 53"
  proof (rule ccontr)
    assume "\<not> nat e < 53"
    then have "53 \<le> nat e" by simp
    then have "(2::int) ^ 53 \<le> 2 ^ nat e" by (rule power_increasing) simp
    with lt show False by linarith
  qed
  with e0 have e52: "e \<le> 52" by linarith
  have ulp: "(2::rat) powi (e - 52) = 1 / 2 ^ c"
  proof (cases "e = 52")
    case True
    then show ?thesis by (simp add: c_def)
  next
    case False
    with e52 have "\<not> 0 \<le> e - 52" by simp
    then show ?thesis
      by (simp add: power_int_def c_def inverse_eq_divide power_one_over)
  qed
  have m: "of_int k / (1 / 2 ^ c) = (of_int (k * 2 ^ c) :: rat)"
    by simp
  have undo: "(of_int (k * 2 ^ c) :: rat) / 2 ^ c = of_int k"
    by simp
  define lim where "lim = (2::rat) powi 1024"
  have "(of_int k :: rat) < 2 ^ 53"
    using assms(2) by (metis of_int_less_iff of_int_numeral of_int_power)
  also have "\<dots> \<le> 2 ^ 1024" by (rule power_increasing) simp_all
  also have "\<dots> = lim" by (simp only: lim_def power_int_def) simp
  finally have small: "\<not> lim \<le> of_int k" by simp
  from pos have abs: "\<bar>of_int k :: rat\<bar> = of_int k" "(of_int k :: rat) \<noteq> 0"
    "(0::rat) < of_int k"
    by simp_all
  have il: "max (ilog2 (of_int k)) (- 1022) = e"
    using e0 by (simp add: ilog2_of_int [OF pos] e_def)
  show ?thesis
    unfolding round_double_def Let_def abs il ulp m lim_def [symmetric]
    using small abs by (simp del: of_int_mult add: undo)
qed

lemma js_minus_one_integer:
  "1 \<le> n \<Longrightarrow> n \<le> 2 ^ 53 \<Longrightarrow> js_minus_one (Finite (of_int n)) = Finite (of_int (n - 1))"
  using round_double_of_int [of "n - 1"] by simp

lemma default_budget_steps:
  "js_greater_zero (Finite 2)" "js_minus_one (Finite 2) = Finite 1"
  "js_greater_zero (Finite 1)" "js_minus_one (Finite 1) = Finite 0"
  "\<not> js_greater_zero (Finite 0)"
  using js_minus_one_integer [of 2] js_minus_one_integer [of 1] by simp_all

lemma default_delay_steps:
  "js_times_two (Finite 1000) = Finite 2000" "js_times_two (Finite 2000) = Finite 4000"
  using round_double_of_int [of 2000] round_double_of_int [of 4000] by simp_all

text \<open>
  Below \<open>2 ^ 54\<close> the doubles are 2 apart: \<open>2 ^ 54 - 1\<close> lies halfway between \<open>2 ^ 54 - 2\<close>
  and \<open>2 ^ 54\<close> and is rounded to the latter, whose significand is even. At one half the
  subtraction is exact.
\<close>

lemma minus_one_at_2_54: "js_minus_one (Finite (2 ^ 54)) = Finite (2 ^ 54)"
  by code_simp

lemma minus_one_at_half: "js_minus_one (Finite (1 / 2)) = Finite (- (1 / 2))"
  by code_simp

section \<open>Properties of the retry wrapper\<close>

lemma retryOperation_success:
  "operation s = (Inr v, s', t) \<Longrightarrow>
   retryOperation operation retries delay s = Some (Inr v, s', OperationCall # map Effect t)"
  by (subst retryOperation.simps) simp

lemma retryOperation_exhausted:
  "operation s = (Inl e, s', t) \<Longrightarrow> \<not> js_greater_zero retries \<Longrightarrow>
   retryOperation operation retries delay s = Some (Inl e, s', OperationCall # map Effect t)"
  by (subst retryOperation.simps) simp

lemma retryOperation_retry:
  "operation s = (Inl e, s', t) \<Longrightarrow> js_greater_zero retries \<Longrightarrow>
   retryOperation operation (js_minus_one retries) (js_times_two delay) s' = Some (r, s'', t') \<Longrightarrow>
   retryOperation operation retries delay s =
     Some (r, s'', OperationCall # map Effect t @ [ConsoleWarn retries, SetTimeout delay] @ t')"
  by (subst retryOperation.simps) simp

lemma retryOperation_retry_cases:
  assumes "operation s = (Inl e, s', t)" and "js_greater_zero retries"
    and "retryOperation operation retries delay s = Some (r, s'', tr)"
  obtains t' where
    "retryOperation operation (js_minus_one retries) (js_times_two delay) s' = Some (r, s'', t')"
    and "tr = OperationCall # map Effect t @ [ConsoleWarn retries, SetTimeout delay] @ t'"
proof -
  from assms(3) have "(case operation s of
        (Inr v, s', t) \<Rightarrow> Some (Inr v, s', OperationCall # map Effect t)
      | (Inl error, s', t) \<Rightarrow>
          if js_greater_zero retries then
            Option.bind
              (retryOperation operation (js_minus_one retries) (js_times_two delay) s')
              (\<lambda>(r, s'', t').
                 Some (r, s'',
                   OperationCall # map Effect t @ [ConsoleWarn retries, SetTimeout delay] @ t'))
          else Some (Inl error, s', OperationCall # map Effect t)) = Some (r, s'', tr)"
    by (subst (asm) retryOperation.simps)
  with assms(1,2) that show ?thesis
    by (auto split: Option.bind_splits)
qed

lemma invocations_simps [simp]:
  "invocations [] = 0"
  "invocations (OperationCall # t) = Suc (invocations t)"
  "invocations (Effect x # t) = invocations t"
  "invocations (ConsoleWarn n # t) = invocations t"
  "invocations (SetTimeout d # t) = invocations t"
  "invocations (t @ u) = invocations t + invocations u"
  "invocations (map Effect es) = 0"
  by (simp_all add: invocations_def)

lemma delays_append [simp]: "delays (t @ u) = delays t @ delays u"
  by (induction t rule: delays.induct) simp_all

lemma delays_Effect [simp]: "delays (map Effect es) = []"
  by (induction es) simp_all

text \<open>
  With an integer budget from 0 to \<open>2 ^ 53\<close> every step of the countdown is exact, and the
  wrapper returns.
\<close>

lemma retry_counts:
  "0 \<le> n \<Longrightarrow> n \<le> 2 ^ 53 \<Longrightarrow>
   \<exists>r s' t. retryOperation operation (Finite (of_int n)) delay s = Some (r, s', t) \<and>
     1 \<le> invocations t \<and> invocations t \<le> nat n + 1 \<and>
     (isl r \<longrightarrow> invocations t = nat n + 1) \<and>
     length (delays t) + 1 = invocations t"
proof (induction "nat n" arbitrary: n delay s)
  case 0
  then have stop: "\<not> js_greater_zero (Finite (of_int n))" by simp
  obtain r1 s1 t1 where op: "operation s = (r1, s1, t1)"
    by (cases "operation s") auto
  show ?case
  proof (cases r1)
    case (Inr v)
    with op show ?thesis by (simp add: retryOperation_success)
  next
    case (Inl e)
    with op stop show ?thesis by (simp add: retryOperation_exhausted)
  qed
next
  case (Suc k)
  then have more: "js_greater_zero (Finite (of_int n))" and k: "k = nat (n - 1)"
    and range: "0 \<le> n - 1" "n - 1 \<le> 2 ^ 53" "1 \<le> n"
    by simp_all
  from range(3) Suc.prems(2) have next_budget:
    "js_minus_one (Finite (of_int n)) = Finite (of_int (n - 1))"
    by (rule js_minus_one_integer)
  obtain r1 s1 t1 where op: "operation s = (r1, s1, t1)"
    by (cases "operation s") auto
  show ?case
  proof (cases r1)
    case (Inr v)
    with op show ?thesis by (simp add: retryOperation_success)
  next
    case (Inl e)
    from Suc.hyps(1) [OF k range(1,2), of "js_times_two delay" s1]
    obtain r2 s2 t2 where
      rec: "retryOperation operation (Finite (of_int (n - 1))) (js_times_two delay) s1 =
        Some (r2, s2, t2)"
      and ih: "1 \<le> invocations t2" "invocations t2 \<le> nat (n - 1) + 1"
        "isl r2 \<longrightarrow> invocations t2 = nat (n - 1) + 1"
        "length (delays t2) + 1 = invocations t2"
      by blast
    from op Inl have failed: "operation s = (Inl e, s1, t1)" by simp
    from rec next_budget
    have "retryOperation operation (js_minus_one (Finite (of_int n))) (js_times_two delay) s1 =
        Some (r2, s2, t2)"
      by simp
    from retryOperation_retry [OF failed more this]
    have res: "retryOperation operation (Finite (of_int n)) delay s =
        Some (r2, s2, OperationCall # map Effect t1 @
          [ConsoleWarn (Finite (of_int n)), SetTimeout delay] @ t2)" .
    from ih range(3) show ?thesis
      by (simp add: res nat_diff_distrib)
  qed
qed

lemma retry_default_all_fail:
  assumes "operation s = (Inl e1, s1, t1)" and "operation s1 = (Inl e2, s2, t2)"
    and "operation s2 = (Inl e3, s3, t3)"
  shows "retryOperation_default operation s =
     Some (Inl e3, s3,
      OperationCall # map Effect t1 @ [ConsoleWarn (Finite 2), SetTimeout (Finite 1000)] @
      OperationCall # map Effect t2 @ [ConsoleWarn (Finite 1), SetTimeout (Finite 2000)] @
      OperationCall # map Effect t3)"
proof -
  have third: "retryOperation operation (js_minus_one (Finite 1)) (js_times_two (Finite 2000)) s2 =
      Some (Inl e3, s3, OperationCall # map Effect t3)"
    using assms(3) by (simp only: default_budget_steps default_delay_steps) (simp add: retryOperation_exhausted)
  have second: "retryOperation operation (js_minus_one (Finite 2)) (js_times_two (Finite 1000)) s1 =
      Some (Inl e3, s3, OperationCall # map Effect t2 @
         [ConsoleWarn (Finite 1), SetTimeout (Finite 2000)] @ OperationCall # map Effect t3)"
    unfolding default_budget_steps default_delay_steps
    by (rule retryOperation_retry [OF assms(2) default_budget_steps(3) third])
  show ?thesis
    unfolding retryOperation_default_def
    by (rule retryOperation_retry [OF assms(1) default_budget_steps(1) second])
qed

lemma retry_default_third_succeeds:
  assumes "operation s = (Inl e1, s1, t1)" and "operation s1 = (Inl e2, s2, t2)"
    and "operation s2 = (Inr v, s3, t3)"
  shows "retryOperation_default operation s =
     Some (Inr v, s3,
      OperationCall # map Effect t1 @ [ConsoleWarn (Finite 2), SetTimeout (Finite 1000)] @
      OperationCall # map Effect t2 @ [ConsoleWarn (Finite 1), SetTimeout (Finite 2000)] @
      OperationCall # map Effect t3)"
proof -
  have third: "retryOperation operation (js_minus_one (Finite 1)) (js_times_two (Finite 2000)) s2 =
      Some (Inr v, s3, OperationCall # map Effect t3)"
    using assms(3) by (simp only: default_budget_steps default_delay_steps) (simp add: retryOperation_success)
  have second: "retryOperation operation (js_minus_one (Finite 2)) (js_times_two (Finite 1000)) s1 =
      Some (Inr v, s3, OperationCall # map Effect t2 @
         [ConsoleWarn (Finite 1), SetTimeout (Finite 2000)] @ OperationCall # map Effect t3)"
    unfolding default_budget_steps default_delay_steps
    by (rule retryOperation_retry [OF assms(2) default_budget_steps(3) third])
  show ?thesis
    unfolding retryOperation_default_def
    by (rule retryOperation_retry [OF assms(1) default_budget_steps(1) second])
qed

lemma retryOperation_default_returns: "\<exists>y. retryOperation_default operation s = Some y"
  using retry_counts [of 2 operation "Finite 1000" s]
  by (auto simp: retryOperation_default_def)

lemma fails_at: "isl (fst x) \<Longrightarrow> \<exists>e s' t. x = (Inl e, s', t)"
  by (cases x) (auto simp: isl_def)

text \<open>
  A budget that is positive and that the subtraction does not change: on an operation that
  always fails, the wrapper does not return.
\<close>

lemma never_returns:
  assumes "retryOperation operation retries delay s = Some y"
  shows "\<not> ((\<forall>s. isl (fst (operation s))) \<and> js_greater_zero retries \<and>
            js_minus_one retries = retries)"
  using assms
proof (induction operation retries delay s y rule: retryOperation.raw_induct [rotated 1, consumes 1])
  case (1 f operation retries delay s y)
  show ?case
  proof
    assume a: "(\<forall>s. isl (fst (operation s))) \<and> js_greater_zero retries \<and>
      js_minus_one retries = retries"
    then have "isl (fst (operation s))" by simp
    from fails_at [OF this] obtain e s' t where op: "operation s = (Inl e, s', t)"
      by blast
    with a "1.hyps" obtain y' where rec: "f operation retries (js_times_two delay) s' = Some y'"
      by (auto split: Option.bind_splits)
    from "1.IH" [OF rec] a show False by simp
  qed
qed

text \<open>
  C9: for every operation, every delay and every integer budget \<open>n\<close> from 0 to \<open>2 ^ 53\<close>, where
  \<^verbatim>\<open>retries - 1\<close> is exact, \<open>retryOperation\<close> returns: it gives a result after at least one and
  at most \<open>n + 1\<close> invocations of the operation, and after exactly \<open>n + 1\<close> when the result is
  an error.
\<close>

theorem retryOperation_total_bounded:
  "0 \<le> n \<Longrightarrow> n \<le> 2 ^ 53 \<Longrightarrow>
   (\<exists>r s' t. retryOperation operation (Finite (of_int n)) delay s = Some (r, s', t) \<and>
      1 \<le> invocations t \<and> invocations t \<le> nat n + 1 \<and>
      (isl r \<longrightarrow> invocations t = nat n + 1))"
  using retry_counts [of n operation delay s] by blast

theorem retryOperation_total_bounded_witness:
  "(0::int) \<le> 4 \<and> (4::int) \<le> 2 ^ 53 \<and>
   (\<exists>r s' t. retryOperation always_fails (Finite (of_int 4)) (Finite 1000) 0 = Some (r, s', t) \<and>
      1 \<le> invocations t \<and> invocations t \<le> nat 4 + 1 \<and>
      (isl r \<longrightarrow> invocations t = nat 4 + 1))"
  using retryOperation_total_bounded [of 4 always_fails "Finite 1000" 0] by simp

text \<open>
  Outside that range the bound and the return both fail. With the budget \<open>2 ^ 54\<close>, which
  \<^verbatim>\<open>retries - 1\<close> leaves unchanged, the wrapper never returns on an operation that always
  fails. With the budget one half it invokes the operation twice, more than one and a half
  times.
\<close>

theorem retryOperation_budget_counterexample:
  "retryOperation always_fails (Finite (2 ^ 54)) (Finite 1000) 0 = None \<and>
   retryOperation always_fails (Finite (1 / 2)) (Finite 1000) 0 =
     Some (Inl 1, 2, [OperationCall, ConsoleWarn (Finite (1 / 2)), SetTimeout (Finite 1000),
                      OperationCall])"
proof
  show "retryOperation always_fails (Finite (2 ^ 54)) (Finite 1000) 0 = None"
  proof (cases "retryOperation always_fails (Finite (2 ^ 54)) (Finite 1000) 0")
    case None
    then show ?thesis .
  next
    case (Some y)
    from never_returns [OF Some] minus_one_at_2_54 show ?thesis
      by (simp add: always_fails_def)
  qed
next
  have first: "always_fails 0 = (Inl 0, 1, [])" and second: "always_fails 1 = (Inl 1, 2, [])"
    by (simp_all add: always_fails_def)
  have half: "js_greater_zero (Finite (1 / 2))" by simp
  have "\<not> js_greater_zero (js_minus_one (Finite (1 / 2)))"
    by (simp only: minus_one_at_half) simp
  from retryOperation_exhausted [where operation = always_fails and s = 1, OF second this]
  have "retryOperation always_fails (js_minus_one (Finite (1 / 2))) (js_times_two (Finite 1000)) 1 =
      Some (Inl 1, 2, OperationCall # map Effect [])" .
  from retryOperation_retry [where operation = always_fails and s = 0, OF first half this]
  show "retryOperation always_fails (Finite (1 / 2)) (Finite 1000) 0 =
     Some (Inl 1, 2, [OperationCall, ConsoleWarn (Finite (1 / 2)), SetTimeout (Finite 1000),
                      OperationCall])"
    by simp
qed

text \<open>
  C1: when the operation fails on every invocation, \<^verbatim>\<open>retryOperation(operation)\<close> with the
  default budget invokes it exactly three times, waiting 1000 and then 2000 milliseconds in
  between, and rejects with the error of the third invocation, unchanged.
\<close>

theorem always_failing_three_attempts:
  assumes "\<forall>s. isl (fst (operation s))"
  shows "\<exists>e1 s1 t1 e2 s2 t2 e3 s3 t3.
     operation s = (Inl e1, s1, t1) \<and> operation s1 = (Inl e2, s2, t2) \<and>
     operation s2 = (Inl e3, s3, t3) \<and>
     retryOperation_default operation s =
       Some (Inl e3, s3,
        OperationCall # map Effect t1 @ [ConsoleWarn (Finite 2), SetTimeout (Finite 1000)] @
        OperationCall # map Effect t2 @ [ConsoleWarn (Finite 1), SetTimeout (Finite 2000)] @
        OperationCall # map Effect t3) \<and>
     invocations
       (OperationCall # map Effect t1 @ [ConsoleWarn (Finite 2), SetTimeout (Finite 1000)] @
        OperationCall # map Effect t2 @ [ConsoleWarn (Finite 1), SetTimeout (Finite 2000)] @
        OperationCall # map Effect t3) = 3"
proof -
  from assms have "isl (fst (operation s))" by simp
  from fails_at [of "operation s", OF this] obtain e1 s1 t1 where
    a1: "operation s = (Inl e1, s1, t1)"
    by auto
  from assms have "isl (fst (operation s1))" by simp
  from fails_at [of "operation s1", OF this] obtain e2 s2 t2 where
    a2: "operation s1 = (Inl e2, s2, t2)"
    by auto
  from assms have "isl (fst (operation s2))" by simp
  from fails_at [of "operation s2", OF this] obtain e3 s3 t3 where
    a3: "operation s2 = (Inl e3, s3, t3)"
    by auto
  note res = retry_default_all_fail [OF a1 a2 a3]
  have inv: "invocations
       (OperationCall # map Effect t1 @ [ConsoleWarn (Finite 2), SetTimeout (Finite 1000)] @
        OperationCall # map Effect t2 @ [ConsoleWarn (Finite 1), SetTimeout (Finite 2000)] @
        OperationCall # map Effect t3) = 3"
    by simp
  show ?thesis
    by (intro exI conjI) (rule a1, rule a2, rule a3, rule res, rule inv)
qed

theorem always_failing_three_attempts_witness:
  "(\<forall>s. isl (fst (always_fails s))) \<and>
   retryOperation_default always_fails 0 =
     Some (Inl 2, 3, [OperationCall, ConsoleWarn (Finite 2), SetTimeout (Finite 1000),
                      OperationCall, ConsoleWarn (Finite 1), SetTimeout (Finite 2000),
                      OperationCall])"
proof -
  have h: "\<forall>s. isl (fst (always_fails s))"
    by (simp add: always_fails_def)
  from always_failing_three_attempts [OF h, of 0] show ?thesis
    using h by (auto simp: always_fails_def numeral_2_eq_2 numeral_3_eq_3)
qed

text \<open>
  C2: when the operation fails on its first two invocations and succeeds on the third,
  \<^verbatim>\<open>retryOperation(operation)\<close> gives the value of the third invocation, after exactly two
  waits, of 1000 and then 2000 milliseconds.
\<close>

theorem fails_twice_then_succeeds:
  assumes "operation s = (Inl e1, s1, t1)" and "operation s1 = (Inl e2, s2, t2)"
    and "operation s2 = (Inr v, s3, t3)"
  shows "retryOperation_default operation s =
     Some (Inr v, s3,
      OperationCall # map Effect t1 @ [ConsoleWarn (Finite 2), SetTimeout (Finite 1000)] @
      OperationCall # map Effect t2 @ [ConsoleWarn (Finite 1), SetTimeout (Finite 2000)] @
      OperationCall # map Effect t3) \<and>
     delays
      (OperationCall # map Effect t1 @ [ConsoleWarn (Finite 2), SetTimeout (Finite 1000)] @
       OperationCall # map Effect t2 @ [ConsoleWarn (Finite 1), SetTimeout (Finite 2000)] @
       OperationCall # map Effect t3) = [Finite 1000, Finite 2000] \<and>
     invocations
      (OperationCall # map Effect t1 @ [ConsoleWarn (Finite 2), SetTimeout (Finite 1000)] @
       OperationCall # map Effect t2 @ [ConsoleWarn (Finite 1), SetTimeout (Finite 2000)] @
       OperationCall # map Effect t3) = 3"
  by (simp add: retry_default_third_succeeds [OF assms])

theorem fails_twice_then_succeeds_witness:
  "fails_twice 0 = (Inl 0, 1, []) \<and> fails_twice 1 = (Inl 1, 2, []) \<and>
   fails_twice 2 = (Inr ''ok'', 3, []) \<and>
   retryOperation_default fails_twice 0 =
     Some (Inr ''ok'', 3, [OperationCall, ConsoleWarn (Finite 2), SetTimeout (Finite 1000),
                           OperationCall, ConsoleWarn (Finite 1), SetTimeout (Finite 2000),
                           OperationCall])"
proof -
  have h: "fails_twice 0 = (Inl 0, 1, [])" "fails_twice 1 = (Inl 1, 2, [])"
    "fails_twice 2 = (Inr ''ok'', 3, [])"
    by (simp_all add: fails_twice_def)
  from fails_twice_then_succeeds [OF h] h show ?thesis by simp
qed

section \<open>Properties of the client\<close>

subsection \<open>One attempt\<close>

lemma attempt_service_error:
  "generateContent rq s = (Inl err, s') \<Longrightarrow>
   attempt generateContent JSON_parse rq s =
     (Inl err, s', [GenerateContent rq, ConsoleError err])"
  by (simp add: attempt_def attempt_try_def)

lemma attempt_no_text:
  "generateContent rq s = (Inr response, s') \<Longrightarrow> \<not> truthy (response_text response) \<Longrightarrow>
   attempt generateContent JSON_parse rq s =
     (Inl (Error ''Empty response from Gemini''), s',
      [GenerateContent rq, ConsoleError (Error ''Empty response from Gemini'')])"
  by (simp add: attempt_def attempt_try_def)

lemma attempt_parse_error:
  "generateContent rq s = (Inr response, s') \<Longrightarrow> truthy (response_text response) \<Longrightarrow>
   JSON_parse (cleanText (the (response_text response))) = Inl err \<Longrightarrow>
   attempt generateContent JSON_parse rq s =
     (Inl err, s',
      [GenerateContent rq, JSONParse (cleanText (the (response_text response))),
       ConsoleError err])"
  by (simp add: attempt_def attempt_try_def Let_def)

lemma attempt_parsed:
  "generateContent rq s = (Inr response, s') \<Longrightarrow> truthy (response_text response) \<Longrightarrow>
   JSON_parse (cleanText (the (response_text response))) = Inr v \<Longrightarrow>
   attempt generateContent JSON_parse rq s =
     (Inr v, s',
      [GenerateContent rq, JSONParse (cleanText (the (response_text response)))])"
  by (simp add: attempt_def attempt_try_def Let_def)

lemma attempt_cases:
  obtains (service) err s' where "generateContent rq s = (Inl err, s')"
  | (empty) response s' where "generateContent rq s = (Inr response, s')"
      and "\<not> truthy (response_text response)"
  | (rejected) response s' err where "generateContent rq s = (Inr response, s')"
      and "truthy (response_text response)"
      and "JSON_parse (cleanText (the (response_text response))) = Inl err"
  | (parsed) response s' v where "generateContent rq s = (Inr response, s')"
      and "truthy (response_text response)"
      and "JSON_parse (cleanText (the (response_text response))) = Inr v"
proof (cases "generateContent rq s")
  case (Pair g s')
  show ?thesis
  proof (cases g)
    case (Inl err)
    with Pair show ?thesis by (auto intro: service)
  next
    case (Inr response)
    show ?thesis
    proof (cases "truthy (response_text response)")
      case False
      with Pair Inr show ?thesis by (auto intro: empty)
    next
      case True
      with Pair Inr show ?thesis
        by (cases "JSON_parse (cleanText (the (response_text response)))")
          (auto intro: rejected parsed)
    qed
  qed
qed

lemma attempt_failure_iff:
  "isl (fst (attempt generateContent JSON_parse rq s)) \<longleftrightarrow>
   retryable_failure generateContent JSON_parse rq s"
  by (cases rule: attempt_cases [where generateContent = generateContent and rq = rq and s = s and JSON_parse = JSON_parse])
    (simp_all add: attempt_service_error attempt_no_text attempt_parse_error attempt_parsed
      retryable_failure_def)

lemma attempt_logs_error:
  "attempt generateContent JSON_parse rq s = (Inl e, s', t) \<Longrightarrow>
   \<exists>t0. attempt_try generateContent JSON_parse rq s = (Inl e, s', t0) \<and> t = t0 @ [ConsoleError e]"
  by (cases "attempt_try generateContent JSON_parse rq s" rule: prod_cases3)
    (auto simp: attempt_def split: sum.splits)

lemma attempt_requests:
  "GenerateContent rq' \<in> set (snd (snd (attempt generateContent JSON_parse rq s))) \<Longrightarrow> rq' = rq"
  by (cases rule: attempt_cases [where generateContent = generateContent and rq = rq and s = s and JSON_parse = JSON_parse])
    (simp_all add: attempt_service_error attempt_no_text attempt_parse_error attempt_parsed)

lemma attempt_first_effect:
  "\<exists>t. snd (snd (attempt generateContent JSON_parse rq s)) = GenerateContent rq # t"
  by (cases rule: attempt_cases [where generateContent = generateContent and rq = rq and s = s and JSON_parse = JSON_parse])
    (simp_all add: attempt_service_error attempt_no_text attempt_parse_error attempt_parsed)

subsection \<open>Attempts under the retry wrapper\<close>

lemma retry_trace_head:
  assumes "retryOperation operation retries delay s = Some (r, s', t)"
  shows "\<exists>t'. t = OperationCall # t'"
proof -
  obtain r1 s1 t1 where op: "operation s = (r1, s1, t1)"
    by (cases "operation s") auto
  show ?thesis
  proof (cases r1)
    case (Inr v)
    with op assms show ?thesis by (auto simp: retryOperation_success)
  next
    case (Inl e)
    show ?thesis
    proof (cases "js_greater_zero retries")
      case False
      with op Inl assms show ?thesis by (auto simp: retryOperation_exhausted)
    next
      case True
      from op Inl have "operation s = (Inl e, s1, t1)" by simp
      from retryOperation_retry_cases [OF this True assms] show ?thesis
        by (metis append_Cons)
    qed
  qed
qed

lemma retry_first_failure:
  assumes "operation s = (Inl e, s1, t1)" and "js_greater_zero retries"
    and "retryOperation operation retries delay s = Some (r, s', t)"
  shows "\<exists>t'. t =
     OperationCall # map Effect t1 @ [ConsoleWarn retries, SetTimeout delay, OperationCall] @ t'"
proof -
  from retryOperation_retry_cases [OF assms] obtain t2 where
    rec: "retryOperation operation (js_minus_one retries) (js_times_two delay) s1 = Some (r, s', t2)"
    and t: "t = OperationCall # map Effect t1 @ [ConsoleWarn retries, SetTimeout delay] @ t2"
    by blast
  from retry_trace_head [OF rec] obtain t' where "t2 = OperationCall # t'" by blast
  with t show ?thesis by simp
qed

lemma retry_effects_aux:
  assumes "retryOperation operation retries delay s = Some y"
  shows "\<forall>x. Effect x \<in> set (snd (snd y)) \<longrightarrow> (\<exists>s0. x \<in> set (snd (snd (operation s0))))"
  using assms
proof (induction operation retries delay s y rule: retryOperation.raw_induct [rotated 1, consumes 1])
  case (1 f operation retries delay s y)
  obtain r1 s1 t1 where op: "operation s = (r1, s1, t1)"
    by (cases "operation s") auto
  have own: "x \<in> set t1 \<Longrightarrow> \<exists>s0. x \<in> set (snd (snd (operation s0)))" for x
    using op by (intro exI [of _ s]) simp
  show ?case
  proof (cases "isl r1 \<and> js_greater_zero retries")
    case False
    with op "1.hyps" have "snd (snd y) = OperationCall # map Effect t1"
      by (cases r1) (auto split: if_splits)
    with own show ?thesis by auto
  next
    case True
    with op "1.hyps" obtain y' where
      rec: "f operation (js_minus_one retries) (js_times_two delay) s1 = Some y'"
      and y: "snd (snd y) =
        OperationCall # map Effect t1 @ [ConsoleWarn retries, SetTimeout delay] @ snd (snd y')"
      by (cases r1) (auto split: Option.bind_splits)
    from "1.IH" [OF rec] y own show ?thesis by auto
  qed
qed

lemma retry_effects:
  "retryOperation operation retries delay s = Some (r, s', t) \<Longrightarrow> Effect x \<in> set t \<Longrightarrow>
   \<exists>s0. x \<in> set (snd (snd (operation s0)))"
  using retry_effects_aux [of operation retries delay s "(r, s', t)"] by simp

lemma retry_error_is_last_aux:
  assumes "retryOperation operation retries delay s = Some y"
  shows "\<forall>e. fst y = Inl e \<longrightarrow>
    (\<exists>s0 t0 pre. operation s0 = (Inl e, fst (snd y), t0) \<and>
       snd (snd y) = pre @ OperationCall # map Effect t0)"
  using assms
proof (induction operation retries delay s y rule: retryOperation.raw_induct [rotated 1, consumes 1])
  case (1 f operation retries delay s y)
  obtain r1 s1 t1 where op: "operation s = (r1, s1, t1)"
    by (cases "operation s") auto
  show ?case
  proof (cases "isl r1 \<and> js_greater_zero retries")
    case False
    with op "1.hyps" have y: "y = (r1, s1, [] @ OperationCall # map Effect t1)"
      by (cases r1) (auto split: if_splits)
    show ?thesis
    proof (intro allI impI)
      fix e
      assume "fst y = Inl e"
      with y op have "operation s = (Inl e, fst (snd y), t1)" by simp
      with y show "\<exists>s0 t0 pre. operation s0 = (Inl e, fst (snd y), t0) \<and>
         snd (snd y) = pre @ OperationCall # map Effect t0"
        by (metis snd_conv)
    qed
  next
    case True
    with op "1.hyps" obtain y' where
      rec: "f operation (js_minus_one retries) (js_times_two delay) s1 = Some y'"
      and y: "fst y = fst y'" "fst (snd y) = fst (snd y')"
        "snd (snd y) =
          (OperationCall # map Effect t1 @ [ConsoleWarn retries, SetTimeout delay]) @ snd (snd y')"
      by (cases r1) (auto split: Option.bind_splits)
    show ?thesis
    proof (intro allI impI)
      fix e
      assume "fst y = Inl e"
      with y(1) have "fst y' = Inl e" by simp
      with "1.IH" [OF rec] obtain s0 t0 pre where
        last: "operation s0 = (Inl e, fst (snd y'), t0)"
        and tr: "snd (snd y') = pre @ OperationCall # map Effect t0"
        by blast
      from y(3) tr have "snd (snd y) =
          ((OperationCall # map Effect t1 @ [ConsoleWarn retries, SetTimeout delay]) @ pre) @
          OperationCall # map Effect t0"
        by simp
      with last y(2) show "\<exists>s0 t0 pre. operation s0 = (Inl e, fst (snd y), t0) \<and>
         snd (snd y) = pre @ OperationCall # map Effect t0"
        by metis
    qed
  qed
qed

lemma retry_error_is_last:
  "retryOperation operation retries delay s = Some (Inl e, s', t) \<Longrightarrow>
   \<exists>s0 t0 pre. operation s0 = (Inl e, s', t0) \<and> t = pre @ OperationCall # map Effect t0"
  using retry_error_is_last_aux [of operation retries delay s "(Inl e, s', t)"] by simp

subsection \<open>Runs of the client against the test doubles\<close>

lemma voice_note_encoded:
  "blobToBase64 fileReader voice_note = (Inr (Some (str ''AAAA'')), [ReadAsDataURL voice_note])"
  by (simp add: blobToBase64_def fileReader_def dataURL_def voice_note_def str_def index_def
      base64_digit_def base64_alphabet_def)

lemma voice_note_unreadable:
  "blobToBase64 broken_reader voice_note =
     (Inl (ProgressEvent ''error''), [ReadAsDataURL voice_note])"
  by (simp add: blobToBase64_def broken_reader_def)

lemma failing_service_attempt:
  "attempt failing_service JSON_parse rq k =
     (Inl (ApiError ''unavailable''), Suc k,
      [GenerateContent rq, ConsoleError (ApiError ''unavailable'')])"
  by (rule attempt_service_error) (simp add: failing_service_def)

lemma failing_service_run:
  "processAudioWithGemini fileReader failing_service parse_stub voice_note 0 =
     Some (Inl (ApiError ''unavailable''), 3,
      [Effect (ReadAsDataURL voice_note),
       OperationCall,
       Effect (GenerateContent (buildRequest voice_note (Some (str ''AAAA'')))),
       Effect (ConsoleError (ApiError ''unavailable'')),
       ConsoleWarn (Finite 2), SetTimeout (Finite 1000),
       OperationCall,
       Effect (GenerateContent (buildRequest voice_note (Some (str ''AAAA'')))),
       Effect (ConsoleError (ApiError ''unavailable'')),
       ConsoleWarn (Finite 1), SetTimeout (Finite 2000),
       OperationCall,
       Effect (GenerateContent (buildRequest voice_note (Some (str ''AAAA'')))),
       Effect (ConsoleError (ApiError ''unavailable''))])"
proof -
  let ?op = "attempt failing_service parse_stub (buildRequest voice_note (Some (str ''AAAA'')))"
  have "retryOperation_default ?op 0 =
     Some (Inl (ApiError ''unavailable''), Suc (Suc (Suc 0)),
      OperationCall # map Effect [GenerateContent (buildRequest voice_note (Some (str ''AAAA''))),
        ConsoleError (ApiError ''unavailable'')] @
        [ConsoleWarn (Finite 2), SetTimeout (Finite 1000)] @
      OperationCall # map Effect [GenerateContent (buildRequest voice_note (Some (str ''AAAA''))),
        ConsoleError (ApiError ''unavailable'')] @
        [ConsoleWarn (Finite 1), SetTimeout (Finite 2000)] @
      OperationCall # map Effect [GenerateContent (buildRequest voice_note (Some (str ''AAAA''))),
        ConsoleError (ApiError ''unavailable'')])"
    by (rule retry_default_all_fail) (rule failing_service_attempt)+
  then show ?thesis
    by (simp add: processAudioWithGemini_def voice_note_encoded numeral_3_eq_3)
qed

lemma client_after_encoding:
  assumes "fst (blobToBase64 readAsDataURL audioBlob) = Inr base64Audio"
    and "retryOperation_default
           (attempt generateContent JSON_parse (buildRequest audioBlob base64Audio)) s =
         Some (r, s', t)"
  shows "processAudioWithGemini readAsDataURL generateContent JSON_parse audioBlob s =
     Some (r, s', Effect (ReadAsDataURL audioBlob) # t)"
proof -
  from assms(1)
  have "blobToBase64 readAsDataURL audioBlob = (Inr base64Audio, [ReadAsDataURL audioBlob])"
    by (auto simp: blobToBase64_def split: sum.splits)
  with assms(2) show ?thesis by (simp add: processAudioWithGemini_def)
qed

lemma client_after_failed_encoding:
  assumes "fst (blobToBase64 readAsDataURL audioBlob) = Inl ev"
  shows "processAudioWithGemini readAsDataURL generateContent JSON_parse audioBlob s =
     Some (Inl ev, s, [Effect (ReadAsDataURL audioBlob)])"
proof -
  from assms
  have "blobToBase64 readAsDataURL audioBlob = (Inl ev, [ReadAsDataURL audioBlob])"
    by (auto simp: blobToBase64_def split: sum.splits)
  then show ?thesis by (simp add: processAudioWithGemini_def)
qed

text \<open>With the default budget the promise of the client always settles.\<close>

lemma client_returns:
  "\<exists>y. processAudioWithGemini readAsDataURL generateContent JSON_parse audioBlob s = Some y"
proof (cases "fst (blobToBase64 readAsDataURL audioBlob)")
  case (Inl ev)
  then show ?thesis by (simp add: client_after_failed_encoding)
next
  case (Inr base64Audio)
  let ?op = "attempt generateContent JSON_parse (buildRequest audioBlob base64Audio)"
  from retryOperation_default_returns [of ?op s] obtain r s' t where
    "retryOperation_default ?op s = Some (r, s', t)"
    by (metis prod_cases3)
  from client_after_encoding [OF Inr this] show ?thesis by blast
qed

subsection \<open>Claims about the client\<close>

text \<open>
  C4: when the response of the model has no text, the attempt throws
  \<^verbatim>\<open>Error("Empty response from Gemini")\<close>; its effects are the request and the log of
  that error, and \<^verbatim>\<open>JSON.parse\<close> is not called.
\<close>

theorem empty_response_not_parsed:
  assumes "generateContent rq s = (Inr response, s')" and "response_text response = None"
  shows "attempt generateContent JSON_parse rq s =
      (Inl (Error ''Empty response from Gemini''), s',
       [GenerateContent rq, ConsoleError (Error ''Empty response from Gemini'')]) \<and>
     (\<forall>text. JSONParse text \<notin> set (snd (snd (attempt generateContent JSON_parse rq s))))"
  using assms by (simp add: attempt_no_text)

theorem empty_response_not_parsed_witness:
  "silent_service (buildRequest voice_note None) 0 = (Inr \<lparr>response_text = None\<rparr>, 1) \<and>
   response_text \<lparr>response_text = None\<rparr> = None \<and>
   attempt silent_service parse_stub (buildRequest voice_note None) 0 =
     (Inl (Error ''Empty response from Gemini''), 1,
      [GenerateContent (buildRequest voice_note None),
       ConsoleError (Error ''Empty response from Gemini'')])"
proof -
  have h: "silent_service (buildRequest voice_note None) 0 = (Inr \<lparr>response_text = None\<rparr>, 1)"
    by (simp add: silent_service_def)
  have n: "response_text \<lparr>response_text = None\<rparr> = None" by simp
  from empty_response_not_parsed
    [where generateContent = silent_service and JSON_parse = parse_stub, OF h n] h
  show ?thesis by simp
qed

text \<open>
  C10: a response whose text is the empty string is handled like a response without text:
  the same empty-response error, the same next state and the same effects, none of them a
  call of \<^verbatim>\<open>JSON.parse\<close>.
\<close>

theorem empty_string_is_no_text:
  assumes "generateContent rq s = (Inr response, s')" and "response_text response = Some []"
    and "generateContent' rq s = (Inr response', s')" and "response_text response' = None"
  shows "attempt generateContent JSON_parse rq s = attempt generateContent' JSON_parse rq s \<and>
     attempt generateContent JSON_parse rq s =
       (Inl (Error ''Empty response from Gemini''), s',
        [GenerateContent rq, ConsoleError (Error ''Empty response from Gemini'')])"
  using assms by (simp add: attempt_no_text)

theorem empty_string_is_no_text_witness:
  "blank_service (buildRequest voice_note None) 0 = (Inr \<lparr>response_text = Some []\<rparr>, 1) \<and>
   silent_service (buildRequest voice_note None) 0 = (Inr \<lparr>response_text = None\<rparr>, 1) \<and>
   attempt blank_service parse_stub (buildRequest voice_note None) 0 =
     attempt silent_service parse_stub (buildRequest voice_note None) 0"
proof -
  have b: "blank_service (buildRequest voice_note None) 0 = (Inr \<lparr>response_text = Some []\<rparr>, 1)"
    by (simp add: blank_service_def)
  have h: "silent_service (buildRequest voice_note None) 0 = (Inr \<lparr>response_text = None\<rparr>, 1)"
    by (simp add: silent_service_def)
  from empty_string_is_no_text
    [where generateContent = blank_service and generateContent' = silent_service
       and JSON_parse = parse_stub, OF b _ h] b h
  show ?thesis by simp
qed

text \<open>
  C5: when the encoder fails, \<^verbatim>\<open>processAudioWithGemini\<close> rejects with that failure; the
  only effect is the read of the blob, so there is no request to the model, no wait and no
  retry, and the state of the service is untouched. When the encoder succeeds and the first
  attempt fails (service, empty response or parse), the wrapper warns, waits 1000
  milliseconds and invokes the attempt again.
\<close>

theorem encoding_failure_not_retried:
  "(fst (blobToBase64 readAsDataURL audioBlob) = Inl ev \<longrightarrow>
      processAudioWithGemini readAsDataURL generateContent JSON_parse audioBlob s =
        Some (Inl ev, s, [Effect (ReadAsDataURL audioBlob)])) \<and>
   (fst (blobToBase64 readAsDataURL audioBlob) = Inr base64Audio \<and>
    retryable_failure generateContent JSON_parse (buildRequest audioBlob base64Audio) s \<longrightarrow>
      (\<exists>r s' t1 t'.
         processAudioWithGemini readAsDataURL generateContent JSON_parse audioBlob s =
           Some (r, s',
             Effect (ReadAsDataURL audioBlob) # OperationCall # map Effect t1 @
             [ConsoleWarn (Finite 2), SetTimeout (Finite 1000), OperationCall] @ t')))"
proof (intro conjI impI)
  assume "fst (blobToBase64 readAsDataURL audioBlob) = Inl ev"
  then show "processAudioWithGemini readAsDataURL generateContent JSON_parse audioBlob s =
      Some (Inl ev, s, [Effect (ReadAsDataURL audioBlob)])"
    by (rule client_after_failed_encoding)
next
  let ?op = "attempt generateContent JSON_parse (buildRequest audioBlob base64Audio)"
  assume a: "fst (blobToBase64 readAsDataURL audioBlob) = Inr base64Audio \<and>
    retryable_failure generateContent JSON_parse (buildRequest audioBlob base64Audio) s"
  then have enc: "fst (blobToBase64 readAsDataURL audioBlob) = Inr base64Audio" by simp
  from a have "isl (fst (?op s))" by (simp add: attempt_failure_iff)
  from fails_at [OF this] obtain e s1 t1 where first: "?op s = (Inl e, s1, t1)" by blast
  from retryOperation_default_returns [of ?op s] obtain r s' t where
    run: "retryOperation_default ?op s = Some (r, s', t)"
    by (metis prod_cases3)
  then have "retryOperation ?op (Finite 2) (Finite 1000) s = Some (r, s', t)"
    by (simp add: retryOperation_default_def)
  from retry_first_failure [where operation = ?op, OF first default_budget_steps(1) this]
  obtain t' where tr:
    "t = OperationCall # map Effect t1 @
       [ConsoleWarn (Finite 2), SetTimeout (Finite 1000), OperationCall] @ t'"
    by blast
  from client_after_encoding [OF enc run] tr
  have "processAudioWithGemini readAsDataURL generateContent JSON_parse audioBlob s =
           Some (r, s',
             Effect (ReadAsDataURL audioBlob) # OperationCall # map Effect t1 @
             [ConsoleWarn (Finite 2), SetTimeout (Finite 1000), OperationCall] @ t')"
    by simp
  then show "\<exists>r s' t1 t'.
         processAudioWithGemini readAsDataURL generateContent JSON_parse audioBlob s =
           Some (r, s',
             Effect (ReadAsDataURL audioBlob) # OperationCall # map Effect t1 @
             [ConsoleWarn (Finite 2), SetTimeout (Finite 1000), OperationCall] @ t')"
    by blast
qed

theorem encoding_failure_not_retried_witness:
  "fst (blobToBase64 broken_reader voice_note) = Inl (ProgressEvent ''error'') \<and>
   processAudioWithGemini broken_reader failing_service parse_stub voice_note 0 =
     Some (Inl (ProgressEvent ''error''), 0, [Effect (ReadAsDataURL voice_note)]) \<and>
   fst (blobToBase64 fileReader voice_note) = Inr (Some (str ''AAAA'')) \<and>
   retryable_failure failing_service parse_stub (buildRequest voice_note (Some (str ''AAAA''))) 0 \<and>
   (\<exists>r s' t1 t'.
      processAudioWithGemini fileReader failing_service parse_stub voice_note 0 =
        Some (r, s',
          Effect (ReadAsDataURL voice_note) # OperationCall # map Effect t1 @
          [ConsoleWarn (Finite 2), SetTimeout (Finite 1000), OperationCall] @ t'))"
proof -
  have h1: "fst (blobToBase64 broken_reader voice_note) = Inl (ProgressEvent ''error'')"
    by (simp add: voice_note_unreadable)
  have h2: "fst (blobToBase64 fileReader voice_note) = Inr (Some (str ''AAAA''))"
    by (simp add: voice_note_encoded)
  have h3: "retryable_failure failing_service parse_stub
      (buildRequest voice_note (Some (str ''AAAA''))) 0"
    by (simp add: retryable_failure_def failing_service_def)
  from encoding_failure_not_retried
    [of broken_reader voice_note "ProgressEvent ''error''" failing_service parse_stub 0]
    encoding_failure_not_retried
    [of fileReader voice_note _ failing_service parse_stub 0 "Some (str ''AAAA'')"]
    h1 h2 h3
  show ?thesis by blast
qed

text \<open>
  C7: every request that \<^verbatim>\<open>processAudioWithGemini\<close> sends carries \<^verbatim>\<open>audio/webm\<close> when the
  type of the blob is empty and the type of the blob otherwise; the run always ends, and a
  request is sent whenever the encoder succeeds.
\<close>

theorem request_mime_type:
  "(\<exists>y. processAudioWithGemini readAsDataURL generateContent JSON_parse audioBlob s = Some y) \<and>
   (\<forall>r s' tr rq.
      processAudioWithGemini readAsDataURL generateContent JSON_parse audioBlob s =
        Some (r, s', tr) \<and>
      Effect (GenerateContent rq) \<in> set tr \<longrightarrow>
      mimeType rq = (if blob_type audioBlob = [] then str ''audio/webm''
                     else blob_type audioBlob)) \<and>
   (fst (blobToBase64 readAsDataURL audioBlob) = Inr base64Audio \<longrightarrow>
      (\<exists>r s' tr.
         processAudioWithGemini readAsDataURL generateContent JSON_parse audioBlob s =
           Some (r, s', tr) \<and>
         Effect (GenerateContent (buildRequest audioBlob base64Audio)) \<in> set tr))"
proof (intro conjI allI impI)
  show "\<exists>y. processAudioWithGemini readAsDataURL generateContent JSON_parse audioBlob s = Some y"
    by (rule client_returns)
next
  fix r s' tr rq
  assume a: "processAudioWithGemini readAsDataURL generateContent JSON_parse audioBlob s =
      Some (r, s', tr) \<and> Effect (GenerateContent rq) \<in> set tr"
  show "mimeType rq = (if blob_type audioBlob = [] then str ''audio/webm''
                       else blob_type audioBlob)"
  proof (cases "fst (blobToBase64 readAsDataURL audioBlob)")
    case (Inl ev)
    from client_after_failed_encoding [OF Inl, of generateContent JSON_parse s] a
    show ?thesis by auto
  next
    case (Inr base64Audio)
    let ?op = "attempt generateContent JSON_parse (buildRequest audioBlob base64Audio)"
    from retryOperation_default_returns [of ?op s] obtain r1 s1 t where
      run: "retryOperation_default ?op s = Some (r1, s1, t)"
      by (metis prod_cases3)
    from client_after_encoding [OF Inr run] a
    have mem: "Effect (GenerateContent rq) \<in> set t" by auto
    from run have "retryOperation ?op (Finite 2) (Finite 1000) s = Some (r1, s1, t)"
      by (simp add: retryOperation_default_def)
    from retry_effects [OF this mem]
    obtain s0 where "GenerateContent rq \<in> set (snd (snd (?op s0)))" by blast
    then have "rq = buildRequest audioBlob base64Audio"
      by (rule attempt_requests)
    then show ?thesis by (simp add: buildRequest_def)
  qed
next
  let ?op = "attempt generateContent JSON_parse (buildRequest audioBlob base64Audio)"
  assume enc: "fst (blobToBase64 readAsDataURL audioBlob) = Inr base64Audio"
  from retryOperation_default_returns [of ?op s] obtain r s' t where
    run: "retryOperation_default ?op s = Some (r, s', t)"
    by (metis prod_cases3)
  then have run': "retryOperation ?op (Finite 2) (Finite 1000) s = Some (r, s', t)"
    by (simp add: retryOperation_default_def)
  obtain r1 s1 t1 where first: "?op s = (r1, s1, t1)"
    by (cases "?op s") auto
  from attempt_first_effect [of generateContent JSON_parse "buildRequest audioBlob base64Audio" s]
    first
  obtain u where t1: "t1 = GenerateContent (buildRequest audioBlob base64Audio) # u" by auto
  have "\<exists>t'. t = OperationCall # map Effect t1 @ t'"
  proof (cases r1)
    case (Inr v)
    with first run' show ?thesis
      by (auto simp: retryOperation_success)
  next
    case (Inl e)
    with first have f: "?op s = (Inl e, s1, t1)" by simp
    from retry_first_failure [where operation = ?op, OF f default_budget_steps(1) run']
    show ?thesis by auto
  qed
  with t1 have "Effect (GenerateContent (buildRequest audioBlob base64Audio)) \<in> set t"
    by auto
  with client_after_encoding [OF enc run]
  show "\<exists>r s' tr.
         processAudioWithGemini readAsDataURL generateContent JSON_parse audioBlob s =
           Some (r, s', tr) \<and>
         Effect (GenerateContent (buildRequest audioBlob base64Audio)) \<in> set tr"
    by auto
qed

theorem request_mime_type_witness:
  "fst (blobToBase64 fileReader voice_note) = Inr (Some (str ''AAAA'')) \<and>
   (\<exists>r s' tr.
      processAudioWithGemini fileReader failing_service parse_stub voice_note 0 =
        Some (r, s', tr) \<and>
      Effect (GenerateContent (buildRequest voice_note (Some (str ''AAAA'')))) \<in> set tr) \<and>
   mimeType (buildRequest voice_note (Some (str ''AAAA''))) = str ''audio/webm''"
proof -
  have enc: "fst (blobToBase64 fileReader voice_note) = Inr (Some (str ''AAAA''))"
    by (simp add: voice_note_encoded)
  note inst = request_mime_type
    [of fileReader failing_service parse_stub voice_note 0 "Some (str ''AAAA'')"]
  from inst enc
  have sent: "\<exists>r s' tr.
      processAudioWithGemini fileReader failing_service parse_stub voice_note 0 =
        Some (r, s', tr) \<and>
      Effect (GenerateContent (buildRequest voice_note (Some (str ''AAAA'')))) \<in> set tr"
    by blast
  with inst have "mimeType (buildRequest voice_note (Some (str ''AAAA''))) =
      (if blob_type voice_note = [] then str ''audio/webm'' else blob_type voice_note)"
    by blast
  then have "mimeType (buildRequest voice_note (Some (str ''AAAA''))) = str ''audio/webm''"
    by (simp add: voice_note_def)
  with enc sent show ?thesis by simp
qed

text \<open>
  C8: an attempt that fails has logged the error thrown in its \<^verbatim>\<open>try\<close> block as its last
  effect, and throws that same error. When \<^verbatim>\<open>processAudioWithGemini\<close> rejects after a
  successful encoding, its error is the one thrown in the \<^verbatim>\<open>try\<close> block of the last attempt,
  and the log of that error is the last event of the run.
\<close>

theorem errors_logged_and_surfaced_unchanged:
  "(attempt generateContent JSON_parse rq s = (Inl e, s', t) \<longrightarrow>
      (\<exists>t0. attempt_try generateContent JSON_parse rq s = (Inl e, s', t0) \<and>
            t = t0 @ [ConsoleError e])) \<and>
   (fst (blobToBase64 readAsDataURL audioBlob) = Inr base64Audio \<and>
    processAudioWithGemini readAsDataURL generateContent JSON_parse audioBlob s =
      Some (Inl e, s', tr)
    \<longrightarrow>
      (\<exists>s0 t0 pre.
         attempt_try generateContent JSON_parse (buildRequest audioBlob base64Audio) s0 =
           (Inl e, s', t0) \<and>
         tr = pre @ OperationCall # map Effect t0 @ [Effect (ConsoleError e)]))"
proof (intro conjI impI)
  assume "attempt generateContent JSON_parse rq s = (Inl e, s', t)"
  then show "\<exists>t0. attempt_try generateContent JSON_parse rq s = (Inl e, s', t0) \<and>
            t = t0 @ [ConsoleError e]"
    by (rule attempt_logs_error)
next
  let ?rq = "buildRequest audioBlob base64Audio"
  let ?op = "attempt generateContent JSON_parse ?rq"
  assume a: "fst (blobToBase64 readAsDataURL audioBlob) = Inr base64Audio \<and>
    processAudioWithGemini readAsDataURL generateContent JSON_parse audioBlob s =
      Some (Inl e, s', tr)"
  from retryOperation_default_returns [of ?op s] obtain r1 s1 t1 where
    run: "retryOperation_default ?op s = Some (r1, s1, t1)"
    by (metis prod_cases3)
  from a have enc: "fst (blobToBase64 readAsDataURL audioBlob) = Inr base64Audio" by simp
  from a client_after_encoding [OF enc run]
  have res: "r1 = Inl e" "s1 = s'" "tr = Effect (ReadAsDataURL audioBlob) # t1"
    by simp_all
  from run res have "retryOperation ?op (Finite 2) (Finite 1000) s = Some (Inl e, s', t1)"
    by (simp add: retryOperation_default_def)
  from retry_error_is_last [OF this] obtain s0 t2 pre where
    last: "?op s0 = (Inl e, s', t2)" and t1: "t1 = pre @ OperationCall # map Effect t2"
    by blast
  from attempt_logs_error [OF last] obtain t0 where
    tried: "attempt_try generateContent JSON_parse ?rq s0 = (Inl e, s', t0)"
    and t2: "t2 = t0 @ [ConsoleError e]"
    by blast
  from res(3) t1 t2
  have "tr = (Effect (ReadAsDataURL audioBlob) # pre) @ OperationCall # map Effect t0 @
      [Effect (ConsoleError e)]"
    by simp
  with tried show "\<exists>s0 t0 pre.
         attempt_try generateContent JSON_parse ?rq s0 = (Inl e, s', t0) \<and>
         tr = pre @ OperationCall # map Effect t0 @ [Effect (ConsoleError e)]"
    by blast
qed

theorem errors_logged_and_surfaced_unchanged_witness:
  "attempt failing_service parse_stub (buildRequest voice_note (Some (str ''AAAA''))) 2 =
     (Inl (ApiError ''unavailable''), 3,
      [GenerateContent (buildRequest voice_note (Some (str ''AAAA''))),
       ConsoleError (ApiError ''unavailable'')]) \<and>
   fst (blobToBase64 fileReader voice_note) = Inr (Some (str ''AAAA'')) \<and>
   (\<exists>tr. processAudioWithGemini fileReader failing_service parse_stub voice_note 0 =
       Some (Inl (ApiError ''unavailable''), 3, tr) \<and>
     (\<exists>s0 t0 pre.
        attempt_try failing_service parse_stub (buildRequest voice_note (Some (str ''AAAA''))) s0 =
          (Inl (ApiError ''unavailable''), 3, t0) \<and>
        tr = pre @ OperationCall # map Effect t0 @
          [Effect (ConsoleError (ApiError ''unavailable''))]))"
proof -
  have att: "attempt failing_service parse_stub (buildRequest voice_note (Some (str ''AAAA''))) 2 =
     (Inl (ApiError ''unavailable''), 3,
      [GenerateContent (buildRequest voice_note (Some (str ''AAAA''))),
       ConsoleError (ApiError ''unavailable'')])"
    by (simp add: failing_service_attempt numeral_3_eq_3 numeral_2_eq_2)
  have enc: "fst (blobToBase64 fileReader voice_note) = Inr (Some (str ''AAAA''))"
    by (simp add: voice_note_encoded)
  note run = failing_service_run
  from errors_logged_and_surfaced_unchanged
    [where readAsDataURL = fileReader and generateContent = failing_service
       and JSON_parse = parse_stub and audioBlob = voice_note and s = 0
       and base64Audio = "Some (str ''AAAA'')", THEN conjunct2, rule_format, OF conjI, OF enc run]
  have "\<exists>s0 t0 pre.
      attempt_try failing_service parse_stub (buildRequest voice_note (Some (str ''AAAA''))) s0 =
        (Inl (ApiError ''unavailable''), 3, t0) \<and>
      [Effect (ReadAsDataURL voice_note),
       OperationCall,
       Effect (GenerateContent (buildRequest voice_note (Some (str ''AAAA'')))),
       Effect (ConsoleError (ApiError ''unavailable'')),
       ConsoleWarn (Finite 2), SetTimeout (Finite 1000),
       OperationCall,
       Effect (GenerateContent (buildRequest voice_note (Some (str ''AAAA'')))),
       Effect (ConsoleError (ApiError ''unavailable'')),
       ConsoleWarn (Finite 1), SetTimeout (Finite 2000),
       OperationCall,
       Effect (GenerateContent (buildRequest voice_note (Some (str ''AAAA'')))),
       Effect (ConsoleError (ApiError ''unavailable''))] =
        pre @ OperationCall # map Effect t0 @ [Effect (ConsoleError (ApiError ''unavailable''))]" .
  with att enc run show ?thesis by simp
qed

subsection \<open>Cleaning the response text\<close>





lemma startsWith_append [simp]: "startsWith (p @ r) p"
  by (simp add: startsWith_def)

lemma endsWith_append [simp]: "endsWith (r @ q) q"
  by (simp add: endsWith_def)

lemma replace_at_start_append [simp]: "replace_at_start p (p @ r) = r"
  by (simp add: replace_at_start_def)

lemma replace_at_end_append [simp]: "replace_at_end q (r @ q) = r"
  by (simp add: replace_at_end_def)













subsection \<open>The encoder\<close>

lemma js_split_no_separator: "sep \<notin> set xs \<Longrightarrow> js_split sep xs = [xs]"
  by (induction xs) auto

lemma js_split_at_first_separator:
  "sep \<notin> set xs \<Longrightarrow> js_split sep (xs @ sep # ys) = xs # js_split sep ys"
  by (induction xs) auto

lemma base64_digit_in_alphabet: "base64_digit n \<in> set base64_alphabet"
proof -
  have "length base64_alphabet = 64" by (simp add: base64_alphabet_def)
  then have "n mod 64 < length base64_alphabet" by simp
  then show ?thesis unfolding base64_digit_def by (rule nth_mem)
qed

lemma base64_characters: "set (base64 bytes) \<subseteq> insert CHR ''='' (set base64_alphabet)"
  by (induction bytes rule: base64.induct) (auto simp: base64_digit_in_alphabet)

lemma base64_is_base64: "is_base64 (str (base64 bytes))"
  using base64_characters [of bytes]
  by (auto simp: is_base64_def str_def list_all_iff)

lemma base64_no_comma: "of_char CHR '','' \<notin> set (str (base64 bytes))"
proof
  assume "of_char CHR '','' \<in> set (str (base64 bytes))"
  then obtain c where c: "c \<in> set (base64 bytes)" "(of_char c :: 16 word) = of_char CHR '',''"
    by (auto simp: str_def)
  from c(1) base64_characters have "c \<in> insert CHR ''='' (set base64_alphabet)" by blast
  with c(2) show False
    by (auto simp: base64_alphabet_def)
qed

lemma encoder_without_comma:
  assumes "of_char CHR '','' \<notin> set mediatype"
    and "readAsDataURL b = Inr (dataURL mediatype (blob_bytes b))"
  shows "fst (blobToBase64 readAsDataURL b) = Inr (Some (str (base64 (blob_bytes b))))"
proof -
  let ?header = "str ''data:'' @ mediatype @ str '';base64''"
  let ?payload = "str (base64 (blob_bytes b))"
  have "of_char CHR '','' \<notin> set ?header"
    using assms(1) by (simp add: str_def)
  then have first: "js_split (of_char CHR '','') (?header @ of_char CHR '','' # ?payload) =
      ?header # js_split (of_char CHR '','') ?payload"
    by (rule js_split_at_first_separator)
  have rest: "js_split (of_char CHR '','') ?payload = [?payload]"
    by (rule js_split_no_separator [OF base64_no_comma])
  have url: "dataURL mediatype (blob_bytes b) = ?header @ of_char CHR '','' # ?payload"
    by (simp add: dataURL_def str_def)
  have "js_split (of_char CHR '','') (dataURL mediatype (blob_bytes b)) = [?header, ?payload]"
    by (simp only: url first rest)
  with assms(2) show ?thesis
    by (simp add: blobToBase64_def index_def)
qed

text \<open>
  C6: for a blob of type \<^verbatim>\<open>audio/webm;codecs=opus,vorbis\<close> with the bytes 0, 0, 0 the data
  URL is \<^verbatim>\<open>data:audio/webm;codecs=opus,vorbis;base64,AAAA\<close>, and the encoder resolves with
  \<^verbatim>\<open>vorbis;base64\<close>, the piece between the first two commas: it is not base64 and it is
  not the encoding \<^verbatim>\<open>AAAA\<close> of the bytes.
\<close>

theorem encoder_returns_part_of_media_type:
  "fst (blobToBase64 fileReader codec_list_blob) = Inr (Some (str ''vorbis;base64'')) \<and>
   \<not> is_base64 (str ''vorbis;base64'') \<and>
   str (base64 (blob_bytes codec_list_blob)) = str ''AAAA''"
  by (simp add: blobToBase64_def fileReader_def dataURL_def codec_list_blob_def str_def index_def
      is_base64_def base64_digit_def base64_alphabet_def)

end
